theory Spec2Isabelle
  imports Complex_Main "HOL-Library.Sublist" "HOL-Library.AList"
begin

section \<open>The process lifecycle orchestrator of app.py\<close>

text \<open>
  The program is one asyncio coroutine, \<open>main\<close>, with two helpers (\<open>wait_for_exit\<close>,
  \<open>monitor_stdin\<close>). A coroutine is embedded as a state machine: its control states are
  its suspension points (the \<open>await\<close> expressions), and one step is what the code does
  between being resumed at one \<open>await\<close> and suspending at the next one. What the event
  loop and the collaborators do (deliver a signal, complete an awaited call, raise an
  exception at an \<open>await\<close>) is the input of the step.
\<close>

subsection \<open>Exceptions, signals, tasks\<close>

text \<open>
  The exceptions the source names, and the class it catches on line 151. \<open>StdException\<close>
  stands for any instance of Python's class \<open>Exception\<close> (with its class name as
  payload); the other three derive from \<open>BaseException\<close> only (for \<open>CancelledError\<close>
  this is so since Python 3.8).
\<close>

datatype exc = CancelledError | KeyboardInterrupt | SystemExit | StdException string

fun is_Exception :: "exc \<Rightarrow> bool" where
  "is_Exception (StdException n) = True"
| "is_Exception e = False"

datatype platform = Win32 | Posix

datatype signum = SIGINT | SIGTERM | SIGHUP | SIGUSR1

text \<open>The three tasks created on lines 58, 62 and 66.\<close>

datatype task = StdinTask | XiaozhiTask | OtaTask

text \<open>
  \<open>if ota_task:\<close> (lines 157 and 162) tests the truth value of an \<open>asyncio.Task\<close>; the
  class defines neither \<open>__bool__\<close> nor \<open>__len__\<close>, so every task object is true.
\<close>

definition task_truthy :: "task \<Rightarrow> bool" where
  "task_truthy t = True"

text \<open>The only callback the source registers: the bound method \<open>stop_event.set\<close>.\<close>

datatype callback = StopEventSet

text \<open>The three messages written with \<open>print\<close>: line 146, line 170, line 177.\<close>

datatype message = MsgCancelled | MsgClosed | MsgInterrupted

text \<open>
  The calls of the source that are visible outside the coroutine, in program order.
  \<open>StopAwaited r\<close> marks the completion of \<open>await xiaozhi_server.stop()\<close> on line 150
  (\<open>None\<close>: it returned, \<open>Some e\<close>: it raised \<open>e\<close>); \<open>LogError e\<close> is the
  \<open>logger.error\<close> call of line 152.
\<close>

datatype event =
    CreateTask task
  | AddSignalHandler signum
  | Print message
  | StopCalled
  | StopAwaited "exc option"
  | LogError exc
  | Cancel task
  | WaitCalled "task list" real

subsection \<open>wait\_for\_exit (lines 17-36)\<close>

text \<open>
  What the event loop can do with a suspended coroutine: resume it because the awaited
  object completed, or throw an exception into it at the \<open>await\<close>. A signal is a third
  kind of input: it does not resume anything by itself, the loop runs the registered
  handler (if any).
\<close>

datatype input = Signal signum | Resume | Throw exc

datatype outcome = Suspended | Returned | Raised exc

text \<open>
  \<open>loop.add_signal_handler(sig, callback)\<close> stores the callback under the signal number,
  replacing an earlier one.
\<close>

definition add_signal_handler ::
  "signum \<Rightarrow> callback \<Rightarrow> (signum \<rightharpoonup> callback) \<Rightarrow> (signum \<rightharpoonup> callback)" where
  "add_signal_handler sg cb hs = hs(sg \<mapsto> cb)"

text \<open>
  Lines 26-28: on a platform other than win32 the loop over \<open>(SIGINT, SIGTERM)\<close>; on
  win32 nothing is registered.
\<close>

definition register_handlers :: "platform \<Rightarrow> (signum \<rightharpoonup> callback) \<Rightarrow> (signum \<rightharpoonup> callback)" where
  "register_handlers p hs =
     (if p \<noteq> Win32 then fold (\<lambda>sg. add_signal_handler sg StopEventSet) [SIGINT, SIGTERM] hs
      else hs)"

definition registration_events :: "platform \<Rightarrow> event list" where
  "registration_events p =
     (if p \<noteq> Win32 then map AddSignalHandler [SIGINT, SIGTERM] else [])"

text \<open>
  The one suspension point of \<open>wait_for_exit\<close>, given the flag of \<open>stop_event\<close>.
  \<^item> Posix, line 29, \<open>await stop_event.wait()\<close>: the wait completes only once the flag
    is set; an exception thrown at the await leaves the function.
  \<^item> Win32, lines 33-36, \<open>await asyncio.Future()\<close>: nobody holds the future, so it never
    completes; \<open>KeyboardInterrupt\<close> is caught and the function returns, any other
    exception leaves the function.
\<close>

fun wait_for_exit :: "platform \<Rightarrow> bool \<Rightarrow> input \<Rightarrow> outcome" where
  "wait_for_exit Posix flag Resume = (if flag then Returned else Suspended)"
| "wait_for_exit Posix flag (Throw e) = Raised e"
| "wait_for_exit Win32 flag Resume = Suspended"
| "wait_for_exit Win32 flag (Throw e) = (if e = KeyboardInterrupt then Returned else Raised e)"
| "wait_for_exit p flag (Signal sg) = Suspended"

subsection \<open>main: task creation and the shutdown sequence (lines 58-66, 143-170)\<close>

text \<open>
  The suspension points of \<open>main\<close>. There is no \<open>await\<close> before line 144, so the first
  one is inside \<open>wait_for_exit\<close>. \<open>AwaitStop\<close> and \<open>AwaitJoin\<close> are inside the
  \<open>finally\<close> block and carry the exception that is in flight through it (\<open>None\<close> when
  the \<open>try\<close> statement was left normally or through the \<open>except\<close> clause).
  \<open>Done r\<close>: the coroutine has returned (\<open>None\<close>) or raised (\<open>Some e\<close>).
\<close>

datatype pc = AwaitExit | AwaitStop "exc option" | AwaitJoin "exc option" | Done "exc option"

record mstate =
  plat :: platform
  pc :: pc
  stop_event :: bool
  handlers :: "signum \<rightharpoonup> callback"
  trace :: "event list"

definition emit :: "event list \<Rightarrow> mstate \<Rightarrow> mstate" where
  "emit es s = s\<lparr>trace := trace s @ es\<rparr>"

text \<open>Lines 161-163.\<close>

definition tasks_to_wait :: "task list" where
  "tasks_to_wait = [StdinTask, XiaozhiTask] @ (if task_truthy OtaTask then [OtaTask] else [])"

text \<open>Lines 58-66 and the call on line 144, up to the first suspension.\<close>

definition main_start :: "platform \<Rightarrow> mstate" where
  "main_start p =
     \<lparr>plat = p, pc = AwaitExit, stop_event = False,
      handlers = register_handlers p Map.empty,
      trace = [CreateTask StdinTask, CreateTask XiaozhiTask, CreateTask OtaTask]
              @ registration_events p\<rparr>"

text \<open>Lines 147-150: entering the \<open>finally\<close> block calls \<open>xiaozhi_server.stop()\<close>.\<close>

definition enter_finally :: "exc option \<Rightarrow> mstate \<Rightarrow> mstate" where
  "enter_finally p s = (emit [StopCalled] s)\<lparr>pc := AwaitStop p\<rparr>"

text \<open>
  Lines 145-146: an exception leaving \<open>wait_for_exit\<close>. \<open>CancelledError\<close> is caught
  and answered with a message; any other exception stays in flight through the
  \<open>finally\<close> block.
\<close>

definition main_except :: "exc \<Rightarrow> mstate \<Rightarrow> mstate" where
  "main_except e s =
     (if e = CancelledError then enter_finally None (emit [Print MsgCancelled] s)
      else enter_finally (Some e) s)"

text \<open>Lines 155-169: the three cancel requests and the call of \<open>asyncio.wait\<close>.\<close>

definition cancel_and_wait :: "exc option \<Rightarrow> mstate \<Rightarrow> mstate" where
  "cancel_and_wait p s =
     (emit ([Cancel StdinTask, Cancel XiaozhiTask]
            @ (if task_truthy OtaTask then [Cancel OtaTask] else [])
            @ [WaitCalled tasks_to_wait 3]) s)\<lparr>pc := AwaitJoin p\<rparr>"

text \<open>
  Lines 149-152: the completion of \<open>await xiaozhi_server.stop()\<close>. Only an instance of
  \<open>Exception\<close> is caught; another exception leaves the \<open>finally\<close> block at once and
  replaces the one in flight.
\<close>

definition after_stop :: "exc option \<Rightarrow> exc option \<Rightarrow> mstate \<Rightarrow> mstate" where
  "after_stop p r s =
     (case r of
        None \<Rightarrow> cancel_and_wait p (emit [StopAwaited None] s)
      | Some e \<Rightarrow>
          if is_Exception e then cancel_and_wait p (emit [StopAwaited (Some e), LogError e] s)
          else (emit [StopAwaited (Some e)] s)\<lparr>pc := Done (Some e)\<rparr>)"

text \<open>
  A signal: the loop runs the handler registered for it, here \<open>stop_event.set()\<close>, which
  sets the flag. A signal without a registered handler is not seen by the program.
\<close>

definition deliver_signal :: "signum \<Rightarrow> mstate \<Rightarrow> mstate" where
  "deliver_signal sg s =
     (case handlers s sg of
        None \<Rightarrow> s
      | Some StopEventSet \<Rightarrow> s\<lparr>stop_event := True\<rparr>)"

text \<open>One step of \<open>main\<close>. A finished coroutine ignores every input.\<close>

fun main_step :: "mstate \<Rightarrow> input \<Rightarrow> mstate" where
  "main_step s (Signal sg) = (case pc s of Done r \<Rightarrow> s | _ \<Rightarrow> deliver_signal sg s)"
| "main_step s i =
     (case pc s of
        AwaitExit \<Rightarrow>
          (case wait_for_exit (plat s) (stop_event s) i of
             Suspended \<Rightarrow> s
           | Returned \<Rightarrow> enter_finally None s
           | Raised e \<Rightarrow> main_except e s)
      | AwaitStop p \<Rightarrow>
          (case i of Throw e \<Rightarrow> after_stop p (Some e) s | _ \<Rightarrow> after_stop p None s)
      | AwaitJoin p \<Rightarrow>
          (case i of
             Throw e \<Rightarrow> s\<lparr>pc := Done (Some e)\<rparr>
           | _ \<Rightarrow> (emit [Print MsgClosed] s)\<lparr>pc := Done p\<rparr>)
      | Done r \<Rightarrow> s)"

definition run :: "mstate \<Rightarrow> input list \<Rightarrow> mstate" where
  "run s is = foldl main_step s is"

subsection \<open>Properties of traces\<close>

text \<open>
  \<open>stop_attempted_and_awaited tr\<close>: in \<open>tr\<close> the call of \<open>stop()\<close> occurs and, after
  it, the completion of its \<open>await\<close>.
\<close>

fun stop_completion :: "event \<Rightarrow> bool" where
  "stop_completion (StopAwaited r) = True"
| "stop_completion e = False"

definition stop_attempted_and_awaited :: "event list \<Rightarrow> bool" where
  "stop_attempted_and_awaited tr =
     list_ex stop_completion (dropWhile (\<lambda>e. e \<noteq> StopCalled) tr)"

text \<open>The calls that make up the shutdown sequence, and the sequence itself.\<close>

fun shutdown_call :: "event \<Rightarrow> bool" where
  "shutdown_call StopCalled = True"
| "shutdown_call (Cancel t) = True"
| "shutdown_call (WaitCalled ts d) = True"
| "shutdown_call e = False"

fun wait_call :: "event \<Rightarrow> bool" where
  "wait_call (WaitCalled ts d) = True"
| "wait_call e = False"

definition shutdown_sequence :: "event list" where
  "shutdown_sequence =
     [StopCalled, Cancel StdinTask, Cancel XiaozhiTask, Cancel OtaTask,
      WaitCalled [StdinTask, XiaozhiTask, OtaTask] 3]"




text \<open>Invariants for the at-most-once property.\<close>

definition once_inv :: "mstate \<Rightarrow> bool" where
  "once_inv s =
     (case pc s of
        AwaitExit \<Rightarrow> filter shutdown_call (trace s) = []
      | AwaitStop p \<Rightarrow> filter shutdown_call (trace s) = [StopCalled]
      | AwaitJoin p \<Rightarrow> filter shutdown_call (trace s) = shutdown_sequence
      | Done r \<Rightarrow> filter shutdown_call (trace s) = [StopCalled]
                 \<or> filter shutdown_call (trace s) = shutdown_sequence)"

definition flagged :: "mstate \<Rightarrow> bool" where
  "flagged s \<longleftrightarrow> stop_event s \<or> (\<exists>r. pc s = Done r)"

subsection \<open>The bounded wait (lines 160-170)\<close>

text \<open>
  \<open>asyncio.wait(tasks, timeout=t, return_when=ALL_COMPLETED)\<close> belongs to the Python
  standard library, not to this repository. Its documented contract is taken as given:
  it returns when every task is done or when \<open>t\<close> time units have passed, whichever
  comes first, it returns the pair (done, pending), it does not raise on timeout and it
  does not cancel the pending tasks. \<open>fin t\<close> is the time, counted from the call, at
  which task \<open>t\<close> finishes (\<open>None\<close>: it never does).
\<close>

fun done_time :: "(task \<Rightarrow> real option) \<Rightarrow> task list \<Rightarrow> real option" where
  "done_time fin [] = Some 0"
| "done_time fin (t # ts) =
     (case (fin t, done_time fin ts) of
        (Some a, Some b) \<Rightarrow> Some (max a b)
      | _ \<Rightarrow> None)"

definition done_by :: "(task \<Rightarrow> real option) \<Rightarrow> real \<Rightarrow> task \<Rightarrow> bool" where
  "done_by fin d t = (case fin t of Some a \<Rightarrow> a \<le> d | None \<Rightarrow> False)"

definition asyncio_wait ::
  "(task \<Rightarrow> real option) \<Rightarrow> task list \<Rightarrow> real \<Rightarrow> real \<times> task list \<times> task list" where
  "asyncio_wait fin ts timeout =
     (let elapsed = (case done_time fin ts of Some d \<Rightarrow> min d timeout | None \<Rightarrow> timeout)
      in (elapsed, filter (done_by fin elapsed) ts, filter (\<lambda>t. \<not> done_by fin elapsed t) ts))"

text \<open>
  Lines 165-170 with time: the call made on line 165 returns after the time that
  \<open>asyncio_wait\<close> gives, its result is discarded (the source binds it to nothing), and
  \<open>main\<close> goes on as \<open>main_step\<close> says for a resumption at that \<open>await\<close>.
\<close>

definition await_join ::
  "(task \<Rightarrow> real option) \<Rightarrow> mstate \<Rightarrow> (real \<times> task list \<times> task list) \<times> mstate" where
  "await_join fin s = (asyncio_wait fin tasks_to_wait 3, main_step s Resume)"

definition join_inv :: "mstate \<Rightarrow> bool" where
  "join_inv s =
     (case pc s of
        AwaitJoin p \<Rightarrow>
          (\<exists>a. trace s = a @ [Cancel StdinTask, Cancel XiaozhiTask, Cancel OtaTask,
                                WaitCalled [StdinTask, XiaozhiTask, OtaTask] 3])
      | _ \<Rightarrow> True)"

subsection \<open>monitor\_stdin (lines 39-42)\<close>

text \<open>
  Python strings are sequences of code points; a string is modelled as the list of its
  code points.
\<close>

type_synonym pystr = "nat list"

definition ascii :: "string \<Rightarrow> pystr" where
  "ascii s = map of_char s"

text \<open>
  The coroutine has one suspension point, \<open>await ainput()\<close>. \<open>ainput\<close> comes from the
  package aioconsole; at the \<open>await\<close> it either returns a line or an exception is
  raised there (the cancellation of the task, or an error of the read such as
  \<open>EOFError\<close> at the end of the input). \<open>calls\<close> counts the calls of \<open>ainput\<close> made so
  far.
\<close>

datatype stdin_input = Line pystr | Thrown exc

record stdin_state =
  calls :: nat
  status :: outcome

definition monitor_stdin_start :: stdin_state where
  "monitor_stdin_start = \<lparr>calls = 1, status = Suspended\<rparr>"

fun monitor_stdin :: "stdin_state \<Rightarrow> stdin_input \<Rightarrow> stdin_state" where
  "monitor_stdin s (Line l) =
     (if status s = Suspended then s\<lparr>calls := calls s + 1\<rparr> else s)"
| "monitor_stdin s (Thrown e) =
     (if status s = Suspended then s\<lparr>status := Raised e\<rparr> else s)"

definition run_monitor :: "stdin_state \<Rightarrow> stdin_input list \<Rightarrow> stdin_state" where
  "run_monitor s is = foldl monitor_stdin s is"

subsection \<open>Configuration values\<close>

text \<open>
  The configuration is the dictionary that \<open>load_config\<close> returns: string keys, and
  values of the kinds a YAML document gives (floats are left out). A dictionary is an
  association list in insertion order.
\<close>

datatype pyval =
    VNone
  | VBool bool
  | VInt int
  | VStr pystr
  | VList "pyval list"
  | VDict "(pystr \<times> pyval) list"

type_synonym config = "(pystr \<times> pyval) list"

definition TypeError :: exc where
  "TypeError = StdException ''TypeError''"

definition AttributeError :: exc where
  "AttributeError = StdException ''AttributeError''"

definition KeyError :: exc where
  "KeyError = StdException ''KeyError''"

definition ValueError :: exc where
  "ValueError = StdException ''ValueError''"

text \<open>Python's truth value, \<open>len\<close>, \<open>x.get(k, default)\<close> and \<open>x[k] = v\<close>.\<close>

fun truthy :: "pyval \<Rightarrow> bool" where
  "truthy VNone = False"
| "truthy (VBool b) = b"
| "truthy (VInt n) = (n \<noteq> 0)"
| "truthy (VStr s) = (s \<noteq> [])"
| "truthy (VList xs) = (xs \<noteq> [])"
| "truthy (VDict d) = (d \<noteq> [])"

fun py_len :: "pyval \<Rightarrow> exc + nat" where
  "py_len (VStr s) = Inr (length s)"
| "py_len (VList xs) = Inr (length xs)"
| "py_len (VDict d) = Inr (length d)"
| "py_len v = Inl TypeError"

fun py_get :: "pyval \<Rightarrow> pystr \<Rightarrow> pyval \<Rightarrow> exc + pyval" where
  "py_get (VDict d) k dflt = Inr (case map_of d k of Some v \<Rightarrow> v | None \<Rightarrow> dflt)"
| "py_get v k dflt = Inl AttributeError"

fun py_setitem :: "pyval \<Rightarrow> pystr \<Rightarrow> pyval \<Rightarrow> exc + pyval" where
  "py_setitem (VDict d) k v = Inr (VDict (AList.update k v d))"
| "py_setitem x k v = Inl TypeError"

text \<open>
  The placeholder marker of lines 53 and 82 is the one-character string with the code
  point U+4F60. \<open>marker in x\<close>: for a string the substring test, which for one
  character is membership; for a list the membership of the string; for a dictionary
  the membership among the keys; a \<open>TypeError\<close> otherwise.
\<close>

definition marker :: nat where
  "marker = 20320"

fun contains_marker :: "pyval \<Rightarrow> exc + bool" where
  "contains_marker (VStr s) = Inr (marker \<in> set s)"
| "contains_marker (VList xs) = Inr (VStr [marker] \<in> set xs)"
| "contains_marker (VDict d) = Inr ([marker] \<in> fst ` set d)"
| "contains_marker v = Inl TypeError"

text \<open>
  \<open>s.replace(old, new)\<close> for a non-empty \<open>old\<close> (the source passes the literal
  \<open>/mcp/\<close>): every occurrence, from the left, without overlap.
\<close>

fun py_replace :: "'a list \<Rightarrow> 'a list \<Rightarrow> 'a list \<Rightarrow> 'a list" where
  "py_replace [] new s = s"
| "py_replace (a # as) new [] = []"
| "py_replace (a # as) new (x # xs) =
     (if prefix (a # as) (x # xs) then new @ py_replace (a # as) new (drop (length as) xs)
      else x # py_replace (a # as) new xs)"

fun py_replace_method :: "pyval \<Rightarrow> pystr \<Rightarrow> pystr \<Rightarrow> exc + pyval" where
  "py_replace_method (VStr s) old new = Inr (VStr (py_replace old new s))"
| "py_replace_method v old new = Inl AttributeError"

text \<open>
  \<open>int(x)\<close>; how Python reads an integer from a string is the parameter \<open>parse\<close>.
\<close>

fun py_int :: "(pystr \<Rightarrow> int option) \<Rightarrow> pyval \<Rightarrow> exc + int" where
  "py_int parse (VInt n) = Inr n"
| "py_int parse (VBool b) = Inr (if b then 1 else 0)"
| "py_int parse (VStr s) = (case parse s of Some n \<Rightarrow> Inr n | None \<Rightarrow> Inl ValueError)"
| "py_int parse v = Inl TypeError"

text \<open>
  \<open>str(uuid.uuid4().hex)\<close>: the 32 lower-case hexadecimal digits of the 128-bit integer
  of the UUID, which is the input \<open>u\<close>.
\<close>

definition hex_digit :: "nat \<Rightarrow> nat" where
  "hex_digit d = (if d < 10 then 48 + d else 87 + d)"

fun hex_digits :: "nat \<Rightarrow> nat \<Rightarrow> pystr" where
  "hex_digits 0 n = []"
| "hex_digits (Suc k) n = hex_digits k (n div 16) @ [hex_digit (n mod 16)]"

definition uuid_hex :: "nat \<Rightarrow> pystr" where
  "uuid_hex u = hex_digits 32 u"

subsection \<open>main: the configuration at startup (lines 47-55, 68-69, 81-91)\<close>

text \<open>The keys the source names.\<close>

definition k_manager_api :: pystr where "k_manager_api = ascii ''manager-api''"
definition k_secret :: pystr where "k_secret = ascii ''secret''"
definition k_server :: pystr where "k_server = ascii ''server''"
definition k_auth_key :: pystr where "k_auth_key = ascii ''auth_key''"
definition k_http_port :: pystr where "k_http_port = ascii ''http_port''"
definition k_mcp_endpoint :: pystr where "k_mcp_endpoint = ascii ''mcp_endpoint''"

text \<open>Line 52: \<open>config.get("manager-api", {}).get("secret", "")\<close>.\<close>

definition configured_secret :: "config \<Rightarrow> exc + pyval" where
  "configured_secret c =
     py_get (case map_of c k_manager_api of Some v \<Rightarrow> v | None \<Rightarrow> VDict []) k_secret (VStr [])"

text \<open>Line 53: \<open>not auth_key or len(auth_key) == 0 or marker in auth_key\<close>, left to right.\<close>

definition needs_fresh_key :: "pyval \<Rightarrow> exc + bool" where
  "needs_fresh_key v =
     (if \<not> truthy v then Inr True
      else case py_len v of
             Inl e \<Rightarrow> Inl e
           | Inr n \<Rightarrow> if n = 0 then Inr True else contains_marker v)"

text \<open>Lines 52-55.\<close>

definition derive_auth_key :: "nat \<Rightarrow> config \<Rightarrow> exc + config" where
  "derive_auth_key u c =
     (case configured_secret c of
        Inl e \<Rightarrow> Inl e
      | Inr v \<Rightarrow>
          (case needs_fresh_key v of
             Inl e \<Rightarrow> Inl e
           | Inr b \<Rightarrow>
               (case map_of c k_server of
                  None \<Rightarrow> Inl KeyError
                | Some sv \<Rightarrow>
                    (case py_setitem sv k_auth_key (if b then VStr (uuid_hex u) else v) of
                       Inl e \<Rightarrow> Inl e
                     | Inr sv' \<Rightarrow> Inr (AList.update k_server sv' c)))))"

text \<open>Line 69: \<open>int(config["server"].get("http_port", 8003))\<close>; it only reads.\<close>

definition read_http_port :: "(pystr \<Rightarrow> int option) \<Rightarrow> config \<Rightarrow> exc + int" where
  "read_http_port parse c =
     (case map_of c k_server of
        None \<Rightarrow> Inl KeyError
      | Some sv \<Rightarrow>
          (case py_get sv k_http_port (VInt 8003) of
             Inl e \<Rightarrow> Inl e
           | Inr v \<Rightarrow> py_int parse v))"

text \<open>
  Line 91 stores this string: the code points of the placeholder text of the shipped
  configuration, which begins with the marker.
\<close>

definition endpoint_placeholder :: pystr where
  "endpoint_placeholder =
     [20320, 30340, 25509, 20837, 28857, 32, 119, 101, 98, 115, 111, 99, 107, 101, 116,
      22320, 22336]"

text \<open>
  Lines 81-91. \<open>validate_mcp_endpoint\<close> is imported from \<open>core.utils.util\<close>, which is
  not part of the source at hand; it is the parameter \<open>validate\<close>.
\<close>

definition rewrite_mcp_endpoint :: "(pyval \<Rightarrow> exc + bool) \<Rightarrow> config \<Rightarrow> exc + config" where
  "rewrite_mcp_endpoint validate c =
     (case map_of c k_mcp_endpoint of
        None \<Rightarrow> Inr c
      | Some ep \<Rightarrow>
          if ep = VNone then Inr c
          else
            (case contains_marker ep of
               Inl e \<Rightarrow> Inl e
             | Inr m \<Rightarrow>
                 if m then Inr c
                 else
                   (case validate ep of
                      Inl e \<Rightarrow> Inl e
                    | Inr ok \<Rightarrow>
                        if ok then
                          (case py_replace_method ep (ascii ''/mcp/'') (ascii ''/call/'') of
                             Inl e \<Rightarrow> Inl e
                           | Inr ep' \<Rightarrow> Inr (AList.update k_mcp_endpoint ep' c))
                        else Inr (AList.update k_mcp_endpoint (VStr endpoint_placeholder) c))))"

text \<open>
  What \<open>main\<close> does with the configuration, in program order. The two collaborators
  constructed on lines 61 and 65 receive the same dictionary; what they do with it is
  outside \<open>main\<close> and is not modelled. The logging calls do not touch the
  configuration.
\<close>

record env =
  uuid4 :: nat
  parse_int :: "pystr \<Rightarrow> int option"
  validate_mcp_endpoint :: "pyval \<Rightarrow> exc + bool"

definition startup_config :: "env \<Rightarrow> config \<Rightarrow> exc + config" where
  "startup_config en c =
     (case derive_auth_key (uuid4 en) c of
        Inl e \<Rightarrow> Inl e
      | Inr c1 \<Rightarrow>
          (case read_http_port (parse_int en) c1 of
             Inl e \<Rightarrow> Inl e
           | Inr port \<Rightarrow> rewrite_mcp_endpoint (validate_mcp_endpoint en) c1))"

section \<open>Proofs\<close>

subsection \<open>Running the state machine\<close>

lemmas lifecycle_defs = main_start_def enter_finally_def main_except_def cancel_and_wait_def
  after_stop_def deliver_signal_def emit_def tasks_to_wait_def task_truthy_def
  register_handlers_def registration_events_def add_signal_handler_def

lemma run_Nil: "run s [] = s"
  by (simp add: run_def)

lemma run_Cons: "run s (i # is) = run (main_step s i) is"
  by (simp add: run_def)

lemma run_append: "run s (is @ js) = run (run s is) js"
  by (simp add: run_def)

subsection \<open>Cancel requests come after the stop attempt\<close>

lemma dropWhile_member_stops: "x \<in> set (dropWhile P xs) \<Longrightarrow> \<exists>y\<in>set xs. \<not> P y"
  by (induction xs) (auto split: if_splits)

lemma saa_append: "stop_attempted_and_awaited tr \<Longrightarrow> stop_attempted_and_awaited (tr @ xs)"
proof -
  assume a: "stop_attempted_and_awaited tr"
  then obtain x where "x \<in> set (dropWhile (\<lambda>e. e \<noteq> StopCalled) tr)"
    by (auto simp: stop_attempted_and_awaited_def list_ex_iff)
  then have "StopCalled \<in> set tr"
    using dropWhile_member_stops [of x "\<lambda>e. e \<noteq> StopCalled" tr] by blast
  then have "dropWhile (\<lambda>e. e \<noteq> StopCalled) (tr @ xs) = dropWhile (\<lambda>e. e \<noteq> StopCalled) tr @ xs"
    by (auto simp: dropWhile_append)
  with a show ?thesis
    by (simp add: stop_attempted_and_awaited_def)
qed














subsection \<open>The shutdown sequence runs at most once\<close>

lemma once_inv_start: "once_inv (main_start p)"
  by (simp add: once_inv_def main_start_def registration_events_def)

lemma once_inv_step: "once_inv s \<Longrightarrow> once_inv (main_step s i)"
  by (cases i; cases "pc s"; cases "plat s")
     (auto simp: once_inv_def lifecycle_defs shutdown_sequence_def
           split: option.splits callback.splits)

lemma once_inv_run: "once_inv s \<Longrightarrow> once_inv (run s is)"
  by (induction "is" arbitrary: s) (simp_all add: run_Nil run_Cons once_inv_step)

lemma shutdown_calls_of_run:
  "filter shutdown_call (trace (run (main_start p) is)) \<in> {[], [StopCalled], shutdown_sequence}"
  using once_inv_run [OF once_inv_start, of p "is"]
  by (auto simp: once_inv_def split: pc.splits)

lemma count_list_filter: "P x \<Longrightarrow> count_list (filter P xs) x = count_list xs x"
  by (induction xs) auto

lemma wait_call_filter: "filter wait_call (filter shutdown_call xs) = filter wait_call xs"
proof -
  have "wait_call e \<Longrightarrow> shutdown_call e" for e
    by (cases e) simp_all
  then show ?thesis
    by (induction xs) auto
qed

lemma handlers_step [simp]: "handlers (main_step s i) = handlers s"
  by (cases i; cases "pc s"; cases "plat s")
     (auto simp: lifecycle_defs split: option.splits callback.splits)

lemma plat_step [simp]: "plat (main_step s i) = plat s"
  by (cases i; cases "pc s"; cases "plat s")
     (auto simp: lifecycle_defs split: option.splits callback.splits)

lemma handlers_run [simp]: "handlers (run s is) = handlers s"
  by (induction "is" arbitrary: s) (simp_all add: run_Nil run_Cons)

lemma plat_run [simp]: "plat (run s is) = plat s"
  by (induction "is" arbitrary: s) (simp_all add: run_Nil run_Cons)

lemma flagged_step: "flagged s \<Longrightarrow> flagged (main_step s i)"
  by (cases i; cases "pc s"; cases "plat s")
     (auto simp: flagged_def lifecycle_defs split: option.splits callback.splits)

lemma flagged_run: "flagged s \<Longrightarrow> flagged (run s is)"
  by (induction "is" arbitrary: s) (simp_all add: run_Nil run_Cons flagged_step)

lemma flagged_signal: "flagged s \<Longrightarrow> main_step s (Signal sg) = s"
  by (cases "pc s") (auto simp: flagged_def deliver_signal_def split: option.splits callback.splits)

lemma handled_signal_flags:
  "handlers s sg = Some StopEventSet \<Longrightarrow> flagged (main_step s (Signal sg))"
  by (cases "pc s") (auto simp: flagged_def deliver_signal_def)

lemma posix_handlers:
  "sg \<in> {SIGINT, SIGTERM} \<Longrightarrow> handlers (main_start Posix) sg = Some StopEventSet"
  by (auto simp: lifecycle_defs)

text \<open>
  Claim C4. For every sequence of inputs (signals, completions of awaited calls,
  exceptions thrown at an \<open>await\<close>) and on either platform, the shutdown calls that
  \<open>main\<close> makes form a prefix of the one shutdown sequence: \<open>stop()\<close> is called at
  most once, each task is cancelled at most once, \<open>asyncio.wait\<close> is called at most
  once. Where handlers are registered (Posix), a further signal after \<open>SIGINT\<close> or
  \<open>SIGTERM\<close> changes nothing: the run with it equals the run without it.
\<close>

theorem shutdown_at_most_once:
  "prefix (filter shutdown_call (trace (run (main_start p) is))) shutdown_sequence
   \<and> count_list (trace (run (main_start p) is)) StopCalled \<le> 1
   \<and> (\<forall>t. count_list (trace (run (main_start p) is)) (Cancel t) \<le> 1)
   \<and> length (filter wait_call (trace (run (main_start p) is))) \<le> 1
   \<and> (sg \<in> {SIGINT, SIGTERM} \<longrightarrow>
        run (main_start Posix) (is @ Signal sg # js @ Signal sg' # ks)
          = run (main_start Posix) (is @ Signal sg # js @ ks))"
proof -
  let ?tr = "trace (run (main_start p) is)"
  let ?f = "filter shutdown_call ?tr"
  have shape: "?f \<in> {[], [StopCalled], shutdown_sequence}"
    by (rule shutdown_calls_of_run)
  have c1: "prefix ?f shutdown_sequence"
    using shape by (auto simp: shutdown_sequence_def)
  have "count_list ?f StopCalled \<le> 1"
    using shape by (auto simp: shutdown_sequence_def)
  then have c2: "count_list ?tr StopCalled \<le> 1"
    by (simp add: count_list_filter)
  have c3: "count_list ?tr (Cancel t) \<le> 1" for t
  proof -
    have "count_list ?f (Cancel t) \<le> 1"
      using shape by (auto simp: shutdown_sequence_def)
    then show ?thesis by (simp add: count_list_filter)
  qed
  have "length (filter wait_call ?f) \<le> 1"
    using shape by (auto simp del: filter_filter simp add: shutdown_sequence_def)
  then have c4: "length (filter wait_call ?tr) \<le> 1"
    by (simp only: wait_call_filter)
  have c5: "run (main_start Posix) (is @ Signal sg # js @ Signal sg' # ks)
          = run (main_start Posix) (is @ Signal sg # js @ ks)" if "sg \<in> {SIGINT, SIGTERM}"
  proof -
    let ?s = "run (main_start Posix) is"
    have "handlers ?s sg = Some StopEventSet"
      using that posix_handlers by simp
    then have "flagged (main_step ?s (Signal sg))"
      by (rule handled_signal_flags)
    then have "flagged (run (main_step ?s (Signal sg)) js)"
      by (rule flagged_run)
    then have "main_step (run (main_step ?s (Signal sg)) js) (Signal sg')
        = run (main_step ?s (Signal sg)) js"
      by (rule flagged_signal)
    then show ?thesis
      by (simp add: run_append run_Cons)
  qed
  from c1 c2 c3 c4 c5 show ?thesis by blast
qed

theorem shutdown_at_most_once_witness:
  "SIGINT \<in> {SIGINT, SIGTERM}
   \<and> run (main_start Posix) ([] @ Signal SIGINT # [] @ Signal SIGTERM # [Resume, Resume, Resume])
       = run (main_start Posix) ([] @ Signal SIGINT # [] @ [Resume, Resume, Resume])
   \<and> filter shutdown_call (trace (run (main_start Posix)
         [Signal SIGINT, Signal SIGTERM, Resume, Resume, Signal SIGINT, Resume])) = shutdown_sequence
   \<and> count_list (trace (run (main_start Posix)
         [Signal SIGINT, Signal SIGTERM, Resume, Resume, Signal SIGINT, Resume])) StopCalled \<le> 1"
proof -
  have a: "SIGINT \<in> {SIGINT, SIGTERM}" by simp
  have b: "filter shutdown_call (trace (run (main_start Posix)
         [Signal SIGINT, Signal SIGTERM, Resume, Resume, Signal SIGINT, Resume])) = shutdown_sequence"
    by (simp add: run_def lifecycle_defs shutdown_sequence_def)
  from a b
    shutdown_at_most_once [of Posix "[]" SIGINT "[]" SIGTERM "[Resume, Resume, Resume]"]
    shutdown_at_most_once [of Posix "[Signal SIGINT, Signal SIGTERM, Resume, Resume, Signal SIGINT, Resume]"]
  show ?thesis by blast
qed

subsection \<open>The signal watcher\<close>

lemma flagged_signals: "flagged s \<Longrightarrow> run s (map Signal sgs) = s"
  by (induction sgs) (simp_all add: run_Nil run_Cons flagged_signal del: main_step.simps)

lemma unflagged_resume:
  "pc s = AwaitExit \<Longrightarrow> \<not> stop_event s \<Longrightarrow> run s (replicate n Resume) = s"
  by (induction n) (cases "plat s"; simp add: run_Nil run_Cons)+

lemma left_wait_step: "pc s \<noteq> AwaitExit \<Longrightarrow> pc (main_step s i) \<noteq> AwaitExit"
  by (cases i; cases "pc s")
     (auto simp: lifecycle_defs split: option.splits callback.splits)

lemma left_wait_run: "pc s \<noteq> AwaitExit \<Longrightarrow> pc (run s is) \<noteq> AwaitExit"
  by (induction "is" arbitrary: s) (simp_all add: run_Nil run_Cons left_wait_step)

text \<open>
  Claim C5. On Posix, \<open>wait_for_exit\<close> registers \<open>stop_event.set\<close> for \<open>SIGINT\<close> and
  for \<open>SIGTERM\<close>, each once. Before a signal the wait does not complete. The first
  arrival of either signal sets the event, so that the wait completes and
  \<open>wait_for_exit\<close> returns normally into the \<open>finally\<close> block. Further deliveries of
  signals, of the same one or of the other, leave the state as the first one left it,
  and once the wait has been left it is never entered again.
\<close>

theorem posix_signal_resolves_wait_once:
  "handlers (main_start Posix) SIGINT = Some StopEventSet
   \<and> handlers (main_start Posix) SIGTERM = Some StopEventSet
   \<and> count_list (trace (main_start Posix)) (AddSignalHandler SIGINT) = 1
   \<and> count_list (trace (main_start Posix)) (AddSignalHandler SIGTERM) = 1
   \<and> run (main_start Posix) (replicate n Resume) = main_start Posix
   \<and> (sg \<in> {SIGINT, SIGTERM} \<longrightarrow>
        run (main_start Posix) [Signal sg] = (main_start Posix)\<lparr>stop_event := True\<rparr>
        \<and> wait_for_exit Posix (stop_event (run (main_start Posix) [Signal sg])) Resume = Returned
        \<and> run (main_start Posix) [Signal sg, Resume]
            = enter_finally None ((main_start Posix)\<lparr>stop_event := True\<rparr>)
        \<and> run (main_start Posix) (Signal sg # map Signal sgs) = run (main_start Posix) [Signal sg])
   \<and> (pc (run (main_start Posix) is) \<noteq> AwaitExit \<longrightarrow>
        pc (run (main_start Posix) (is @ js)) \<noteq> AwaitExit)"
proof -
  have reg: "handlers (main_start Posix) SIGINT = Some StopEventSet
      \<and> handlers (main_start Posix) SIGTERM = Some StopEventSet
      \<and> count_list (trace (main_start Posix)) (AddSignalHandler SIGINT) = 1
      \<and> count_list (trace (main_start Posix)) (AddSignalHandler SIGTERM) = 1"
    by (simp add: lifecycle_defs)
  have idle: "run (main_start Posix) (replicate n Resume) = main_start Posix"
    by (rule unflagged_resume) (simp_all add: main_start_def)
  have first: "run (main_start Posix) [Signal sg] = (main_start Posix)\<lparr>stop_event := True\<rparr>
        \<and> wait_for_exit Posix (stop_event (run (main_start Posix) [Signal sg])) Resume = Returned
        \<and> run (main_start Posix) [Signal sg, Resume]
            = enter_finally None ((main_start Posix)\<lparr>stop_event := True\<rparr>)"
    if "sg \<in> {SIGINT, SIGTERM}"
    using that by (auto simp: run_def lifecycle_defs)
  have again: "run (main_start Posix) (Signal sg # map Signal sgs) = run (main_start Posix) [Signal sg]"
    if "sg \<in> {SIGINT, SIGTERM}"
  proof -
    have "flagged (main_step (main_start Posix) (Signal sg))"
      using that by (intro handled_signal_flags posix_handlers)
    then show ?thesis
      by (simp add: run_Cons run_Nil flagged_signals del: main_step.simps)
  qed
  have left: "pc (run (main_start Posix) (is @ js)) \<noteq> AwaitExit"
    if "pc (run (main_start Posix) is) \<noteq> AwaitExit"
    using that by (simp add: run_append left_wait_run)
  from reg idle first again left show ?thesis by blast
qed

theorem posix_signal_resolves_wait_once_witness:
  "SIGTERM \<in> {SIGINT, SIGTERM}
   \<and> pc (run (main_start Posix) [Signal SIGTERM, Resume]) = AwaitStop None
   \<and> run (main_start Posix) (Signal SIGTERM # map Signal [SIGINT, SIGTERM, SIGINT])
       = run (main_start Posix) [Signal SIGTERM]
   \<and> pc (run (main_start Posix) ([Signal SIGTERM, Resume] @ [Signal SIGINT, Resume])) \<noteq> AwaitExit"
proof -
  have a: "SIGTERM \<in> {SIGINT, SIGTERM}" by simp
  have b: "pc (run (main_start Posix) [Signal SIGTERM, Resume]) = AwaitStop None"
    by (simp add: run_def lifecycle_defs)
  then have c: "pc (run (main_start Posix) [Signal SIGTERM, Resume]) \<noteq> AwaitExit"
    by simp
  from a b c
    posix_signal_resolves_wait_once
      [of 0 SIGTERM "[SIGINT, SIGTERM, SIGINT]" "[Signal SIGTERM, Resume]" "[Signal SIGINT, Resume]"]
  show ?thesis by blast
qed




subsection \<open>The cleanup on every exit of the waiting phase\<close>



subsection \<open>A failure of stop()\<close>

text \<open>
  Claim C2, as amended. For every exception raised at \<open>await xiaozhi_server.stop()\<close> that
  is an instance of \<open>Exception\<close>, \<open>main\<close> catches and logs it, cancels the three tasks
  and calls \<open>asyncio.wait\<close> with the timeout 3; when that returns, \<open>main\<close> prints the
  closing message and ends exactly as it would have without the failure (with what was
  in flight before, \<open>q\<close>), so the exception of \<open>stop()\<close> is not raised again.
\<close>

theorem stop_exception_is_contained:
  assumes "pc s = AwaitStop q" and "is_Exception e"
  shows "trace (main_step s (Throw e)) =
           trace s @ [StopAwaited (Some e), LogError e, Cancel StdinTask, Cancel XiaozhiTask,
                      Cancel OtaTask, WaitCalled [StdinTask, XiaozhiTask, OtaTask] 3]
      \<and> pc (main_step s (Throw e)) = AwaitJoin q
      \<and> trace (run s [Throw e, Resume]) =
           trace s @ [StopAwaited (Some e), LogError e, Cancel StdinTask, Cancel XiaozhiTask,
                      Cancel OtaTask, WaitCalled [StdinTask, XiaozhiTask, OtaTask] 3,
                      Print MsgClosed]
      \<and> pc (run s [Throw e, Resume]) = Done q"
  using assms by (simp add: run_def lifecycle_defs)

theorem stop_exception_is_contained_witness:
  "pc (run (main_start Posix) [Signal SIGINT, Resume]) = AwaitStop None
   \<and> is_Exception (StdException ''ConnectionError'')
   \<and> trace (run (run (main_start Posix) [Signal SIGINT, Resume])
        [Throw (StdException ''ConnectionError''), Resume]) =
       trace (run (main_start Posix) [Signal SIGINT, Resume])
         @ [StopAwaited (Some (StdException ''ConnectionError'')),
            LogError (StdException ''ConnectionError''),
            Cancel StdinTask, Cancel XiaozhiTask, Cancel OtaTask,
            WaitCalled [StdinTask, XiaozhiTask, OtaTask] 3, Print MsgClosed]
   \<and> pc (run (run (main_start Posix) [Signal SIGINT, Resume])
        [Throw (StdException ''ConnectionError''), Resume]) = Done None"
proof -
  have a: "pc (run (main_start Posix) [Signal SIGINT, Resume]) = AwaitStop None"
    by (simp add: run_def lifecycle_defs)
  have b: "is_Exception (StdException ''ConnectionError'')"
    by simp
  from stop_exception_is_contained [OF a b] a b show ?thesis
    by blast
qed

text \<open>
  Claim C2 as stated fails: an exception that is not an instance of \<open>Exception\<close> is not
  caught on line 151. Here \<open>stop()\<close> raises \<open>KeyboardInterrupt\<close> on win32, after a first
  one ended the wait: nothing is logged, no task is cancelled, \<open>asyncio.wait\<close> is not
  called, and \<open>main\<close> ends by raising the exception.
\<close>

theorem stop_exception_counterexample:
  "trace (run (main_start Win32) [Throw KeyboardInterrupt, Throw KeyboardInterrupt]) =
     [CreateTask StdinTask, CreateTask XiaozhiTask, CreateTask OtaTask, StopCalled,
      StopAwaited (Some KeyboardInterrupt)]
   \<and> pc (run (main_start Win32) [Throw KeyboardInterrupt, Throw KeyboardInterrupt])
       = Done (Some KeyboardInterrupt)"
  by (simp add: run_def lifecycle_defs)

subsection \<open>The bounded wait\<close>

lemma join_inv_start: "join_inv (main_start p)"
  by (simp add: join_inv_def main_start_def)

lemma join_inv_step: "join_inv s \<Longrightarrow> join_inv (main_step s i)"
  by (cases i; cases "pc s"; cases "plat s")
     (auto simp: join_inv_def lifecycle_defs split: option.splits callback.splits)

lemma join_inv_run: "join_inv s \<Longrightarrow> join_inv (run s is)"
  by (induction "is" arbitrary: s) (simp_all add: run_Nil run_Cons join_inv_step)

lemma done_step: "pc s = Done r \<Longrightarrow> main_step s i = s"
  by (cases i) simp_all

lemma done_run: "pc s = Done r \<Longrightarrow> run s is = s"
  by (induction "is") (simp_all add: run_Nil run_Cons done_step del: main_step.simps)

lemma asyncio_wait_elapsed: "fst (asyncio_wait fin ts timeout) \<le> timeout"
  by (simp add: asyncio_wait_def Let_def split: option.splits)

text \<open>
  Claim C3. When \<open>main\<close> waits on line 165 it has just cancelled the three tasks and
  called \<open>asyncio.wait\<close> on them with the timeout 3. Whatever the finishing times of
  the tasks (also when some never finish), the call returns after at most 3 time units;
  the tasks not finished by then are returned as pending and nothing more is done with
  them: \<open>main\<close> prints the closing message and ends, in the same state whichever tasks
  finished, and no later input makes it wait or cancel again.
\<close>

theorem bounded_wait_then_exit:
  assumes "pc (run (main_start pl) is) = AwaitJoin p"
  shows "(\<exists>a. trace (run (main_start pl) is) =
            a @ [Cancel StdinTask, Cancel XiaozhiTask, Cancel OtaTask,
                 WaitCalled [StdinTask, XiaozhiTask, OtaTask] 3])
      \<and> fst (fst (await_join fin (run (main_start pl) is))) \<le> 3
      \<and> snd (snd (fst (await_join fin (run (main_start pl) is)))) =
          filter (\<lambda>t. \<not> done_by fin (fst (fst (await_join fin (run (main_start pl) is)))) t)
            [StdinTask, XiaozhiTask, OtaTask]
      \<and> snd (await_join fin (run (main_start pl) is)) =
          (emit [Print MsgClosed] (run (main_start pl) is))\<lparr>pc := Done p\<rparr>
      \<and> run (snd (await_join fin (run (main_start pl) is))) js =
          snd (await_join fin (run (main_start pl) is))"
proof -
  let ?s = "run (main_start pl) is"
  have "join_inv ?s"
    by (simp add: join_inv_run join_inv_start)
  with assms have a: "\<exists>a. trace ?s =
      a @ [Cancel StdinTask, Cancel XiaozhiTask, Cancel OtaTask,
           WaitCalled [StdinTask, XiaozhiTask, OtaTask] 3]"
    by (simp add: join_inv_def)
  have b: "fst (fst (await_join fin ?s)) \<le> 3"
    by (simp add: await_join_def asyncio_wait_elapsed)
  have c: "snd (snd (fst (await_join fin ?s))) =
      filter (\<lambda>t. \<not> done_by fin (fst (fst (await_join fin ?s))) t)
        [StdinTask, XiaozhiTask, OtaTask]"
    by (simp add: await_join_def asyncio_wait_def Let_def tasks_to_wait_def task_truthy_def)
  have d: "snd (await_join fin ?s) = (emit [Print MsgClosed] ?s)\<lparr>pc := Done p\<rparr>"
    using assms by (simp add: await_join_def)
  have "pc (snd (await_join fin ?s)) = Done p"
    unfolding d by (simp add: emit_def)
  then have e: "run (snd (await_join fin ?s)) js = snd (await_join fin ?s)"
    by (rule done_run)
  from a b c d e show ?thesis by blast
qed

theorem bounded_wait_then_exit_witness:
  "pc (run (main_start Posix) [Signal SIGINT, Resume, Resume]) = AwaitJoin None
   \<and> fst (fst (await_join (\<lambda>t. if t = StdinTask then None else Some (1 / 2))
        (run (main_start Posix) [Signal SIGINT, Resume, Resume]))) \<le> 3
   \<and> snd (snd (fst (await_join (\<lambda>t. if t = StdinTask then None else Some (1 / 2))
        (run (main_start Posix) [Signal SIGINT, Resume, Resume])))) = [StdinTask]
   \<and> pc (snd (await_join (\<lambda>t. if t = StdinTask then None else Some (1 / 2))
        (run (main_start Posix) [Signal SIGINT, Resume, Resume]))) = Done None
   \<and> run (snd (await_join (\<lambda>t. if t = StdinTask then None else Some (1 / 2))
        (run (main_start Posix) [Signal SIGINT, Resume, Resume]))) [Resume, Signal SIGTERM]
       = snd (await_join (\<lambda>t. if t = StdinTask then None else Some (1 / 2))
        (run (main_start Posix) [Signal SIGINT, Resume, Resume]))"
proof -
  have a: "pc (run (main_start Posix) [Signal SIGINT, Resume, Resume]) = AwaitJoin None"
    by (simp add: run_def lifecycle_defs)
  have b: "snd (snd (fst (await_join (\<lambda>t. if t = StdinTask then None else Some (1 / 2))
        (run (main_start Posix) [Signal SIGINT, Resume, Resume])))) = [StdinTask]"
    by (simp add: await_join_def asyncio_wait_def done_by_def tasks_to_wait_def task_truthy_def)
  have c: "pc (snd (await_join (\<lambda>t. if t = StdinTask then None else Some (1 / 2))
        (run (main_start Posix) [Signal SIGINT, Resume, Resume]))) = Done None"
    by (simp add: await_join_def run_def lifecycle_defs)
  from bounded_wait_then_exit [OF a, of "\<lambda>t. if t = StdinTask then None else Some (1 / 2)"
      "[Resume, Signal SIGTERM]"] a b c
  show ?thesis by blast
qed

subsection \<open>The stdin monitor\<close>

lemma run_monitor_Nil: "run_monitor s [] = s"
  by (simp add: run_monitor_def)

lemma run_monitor_Cons: "run_monitor s (i # is) = run_monitor (monitor_stdin s i) is"
  by (simp add: run_monitor_def)

lemma monitor_lines:
  "status s = Suspended \<Longrightarrow>
   run_monitor s (map Line ls) = s\<lparr>calls := calls s + length ls\<rparr>"
  by (induction ls arbitrary: s) (simp_all add: run_monitor_Nil run_monitor_Cons)

lemma monitor_never_returns_step:
  "status s \<noteq> Returned \<Longrightarrow> status (monitor_stdin s i) \<noteq> Returned"
  by (cases i) auto

lemma monitor_never_returns:
  "status s \<noteq> Returned \<Longrightarrow> status (run_monitor s is) \<noteq> Returned"
  by (induction "is" arbitrary: s)
     (simp_all add: run_monitor_Nil run_monitor_Cons monitor_never_returns_step
               del: monitor_stdin.simps)

lemma monitor_finished: "status s \<noteq> Suspended \<Longrightarrow> run_monitor s is = s"
  by (induction "is") (simp_all add: run_monitor_Nil run_monitor_Cons, (case_tac a; simp)+)

lemma monitor_raised_thrown:
  "status s = Suspended \<Longrightarrow> status (run_monitor s is) = Raised e \<Longrightarrow> Thrown e \<in> set is"
proof (induction "is" arbitrary: s)
  case Nil
  then show ?case by (simp add: run_monitor_Nil)
next
  case (Cons i "is")
  show ?case
  proof (cases i)
    case (Line l)
    have "status (s\<lparr>calls := calls s + 1\<rparr>) = Suspended"
      using Cons.prems by simp
    moreover have "status (run_monitor (s\<lparr>calls := calls s + 1\<rparr>) is) = Raised e"
      using Cons.prems Line by (simp add: run_monitor_Cons)
    ultimately have "Thrown e \<in> set is"
      by (rule Cons.IH)
    then show ?thesis by simp
  next
    case (Thrown x)
    with Cons.prems have "run_monitor s (i # is) = s\<lparr>status := Raised x\<rparr>"
      by (simp add: run_monitor_Cons monitor_finished)
    with Cons.prems Thrown show ?thesis by simp
  qed
qed

text \<open>
  Claim C7, as amended. The stdin monitor loops: it awaits one line, discards it (its
  state does not depend on the line) and awaits the next one, for every sequence of
  lines. It never returns a value. It ends only by an exception raised at its
  \<open>await\<close>, and then with that exception: the cancellation of the task, or an error
  of the read.
\<close>

theorem stdin_monitor_loops_until_exception:
  "run_monitor monitor_stdin_start (map Line ls) = \<lparr>calls = 1 + length ls, status = Suspended\<rparr>
   \<and> status (run_monitor monitor_stdin_start is) \<noteq> Returned
   \<and> (status (run_monitor monitor_stdin_start is) = Raised e \<longrightarrow> Thrown e \<in> set is)
   \<and> run_monitor monitor_stdin_start (map Line ls @ Thrown e # is)
       = \<lparr>calls = 1 + length ls, status = Raised e\<rparr>"
proof -
  have a: "run_monitor monitor_stdin_start (map Line ls)
      = \<lparr>calls = 1 + length ls, status = Suspended\<rparr>"
    by (simp add: monitor_lines monitor_stdin_start_def)
  have b: "status (run_monitor monitor_stdin_start is) \<noteq> Returned"
    by (rule monitor_never_returns) (simp add: monitor_stdin_start_def)
  have c: "Thrown e \<in> set is" if "status (run_monitor monitor_stdin_start is) = Raised e"
    using that by (intro monitor_raised_thrown [of monitor_stdin_start]) (simp_all add: monitor_stdin_start_def)
  have "run_monitor monitor_stdin_start (map Line ls @ Thrown e # is)
      = run_monitor (monitor_stdin \<lparr>calls = 1 + length ls, status = Suspended\<rparr> (Thrown e)) is"
    using a by (simp add: run_monitor_def)
  then have d: "run_monitor monitor_stdin_start (map Line ls @ Thrown e # is)
      = \<lparr>calls = 1 + length ls, status = Raised e\<rparr>"
    by (simp add: monitor_finished)
  from a b c d show ?thesis by blast
qed

theorem stdin_monitor_loops_until_exception_witness:
  "status (run_monitor monitor_stdin_start [Line (ascii ''a''), Thrown CancelledError, Line []])
     = Raised CancelledError
   \<and> Thrown CancelledError \<in> set [Line (ascii ''a''), Thrown CancelledError, Line []]
   \<and> run_monitor monitor_stdin_start (map Line [ascii ''a'', []])
       = \<lparr>calls = 1 + length [ascii ''a'', []], status = Suspended\<rparr>"
proof -
  have a: "status (run_monitor monitor_stdin_start
      [Line (ascii ''a''), Thrown CancelledError, Line []]) = Raised CancelledError"
    by (simp add: run_monitor_def monitor_stdin_start_def)
  from a stdin_monitor_loops_until_exception
      [of "[ascii ''a'', []]" "[Line (ascii ''a''), Thrown CancelledError, Line []]" CancelledError]
  show ?thesis by blast
qed

text \<open>
  Claim C7 as stated fails: the task also ends when the read fails. Here \<open>ainput\<close>
  raises \<open>EOFError\<close> after one line; no cancellation is among the inputs, and the task
  has ended with that error.
\<close>

theorem stdin_monitor_counterexample:
  "status (run_monitor monitor_stdin_start [Line (ascii ''y''), Thrown (StdException ''EOFError'')])
     = Raised (StdException ''EOFError'')
   \<and> Thrown CancelledError \<notin> set [Line (ascii ''y''), Thrown (StdException ''EOFError'')]"
  by (simp add: run_monitor_def monitor_stdin_start_def)

lemmas key_defs = k_manager_api_def k_secret_def k_server_def k_auth_key_def k_http_port_def
  k_mcp_endpoint_def ascii_def

lemmas config_defs = configured_secret_def needs_fresh_key_def derive_auth_key_def
  read_http_port_def rewrite_mcp_endpoint_def startup_config_def

subsection \<open>The configuration at startup\<close>



lemma keys_update_present:
  "map_of c k = Some x \<Longrightarrow> map fst (AList.update k v c) = map fst c"
  by (simp add: update_keys map_of_eq_None_iff [symmetric] del: map_of_eq_None_iff)

lemma server_not_endpoint: "k_server \<noteq> k_mcp_endpoint"
  by (simp add: key_defs)

lemma derive_auth_key_result:
  assumes "derive_auth_key u c = Inr c1"
  shows "\<exists>sv a. map_of c k_server = Some (VDict sv)
      \<and> c1 = AList.update k_server (VDict (AList.update k_auth_key a sv)) c"
proof -
  from assms obtain v b sv sv' where
    sv: "map_of c k_server = Some sv"
    and set: "py_setitem sv k_auth_key (if b then VStr (uuid_hex u) else v) = Inr sv'"
    and c1: "c1 = AList.update k_server sv' c"
    by (auto simp: derive_auth_key_def split: sum.splits option.splits)
  from set obtain d where "sv = VDict d"
    and "sv' = VDict (AList.update k_auth_key (if b then VStr (uuid_hex u) else v) d)"
    by (cases sv) auto
  with sv c1 show ?thesis by blast
qed

lemma rewrite_mcp_endpoint_result:
  assumes "rewrite_mcp_endpoint validate c1 = Inr c'"
  shows "c' = c1
    \<or> (\<exists>ep. map_of c1 k_mcp_endpoint = Some (VStr ep) \<and> marker \<notin> set ep
          \<and> validate (VStr ep) = Inr True
          \<and> c' = AList.update k_mcp_endpoint
                 (VStr (py_replace (ascii ''/mcp/'') (ascii ''/call/'') ep)) c1)
    \<or> (\<exists>ep. map_of c1 k_mcp_endpoint = Some ep \<and> ep \<noteq> VNone
          \<and> contains_marker ep = Inr False \<and> validate ep = Inr False
          \<and> c' = AList.update k_mcp_endpoint (VStr endpoint_placeholder) c1)"
proof (cases "map_of c1 k_mcp_endpoint")
  case None
  with assms show ?thesis by (simp add: rewrite_mcp_endpoint_def)
next
  case (Some ep)
  show ?thesis
  proof (cases "ep = VNone")
    case True
    with assms Some show ?thesis by (simp add: rewrite_mcp_endpoint_def)
  next
    case nn: False
    from assms Some nn obtain m where m: "contains_marker ep = Inr m"
      by (cases "contains_marker ep") (simp_all add: rewrite_mcp_endpoint_def)
    show ?thesis
    proof (cases m)
      case True
      with assms Some nn m show ?thesis by (simp add: rewrite_mcp_endpoint_def)
    next
      case nm: False
      from assms Some nn m nm obtain ok where ok: "validate ep = Inr ok"
        by (cases "validate ep") (simp_all add: rewrite_mcp_endpoint_def)
      show ?thesis
      proof (cases ok)
        case False
        with assms Some nn m nm ok show ?thesis
          by (auto simp: rewrite_mcp_endpoint_def)
      next
        case True
        with assms Some nn m nm ok obtain ep' where
          r: "py_replace_method ep (ascii ''/mcp/'') (ascii ''/call/'') = Inr ep'"
          and c': "c' = AList.update k_mcp_endpoint ep' c1"
          by (cases "py_replace_method ep (ascii ''/mcp/'') (ascii ''/call/'')")
             (simp_all add: rewrite_mcp_endpoint_def)
        from r obtain e where e: "ep = VStr e"
          and ep': "ep' = VStr (py_replace (ascii ''/mcp/'') (ascii ''/call/'') e)"
          by (cases ep) auto
        from m nm e have "marker \<notin> set e" by simp
        with Some e ep' c' ok True show ?thesis by auto
      qed
    qed
  qed
qed



text \<open>
  Claim C10. Whenever the configuration steps of \<open>main\<close> complete, the resulting
  configuration has the same keys in the same order, and every top-level entry other
  than \<open>server\<close> and \<open>mcp_endpoint\<close> has its old value. Inside the \<open>server\<close> mapping
  only \<open>auth_key\<close> is written. The \<open>mcp_endpoint\<close> entry is either unchanged, or it
  was a string without the marker that the validation accepted and is now that string
  with \<open>/mcp/\<close> replaced by \<open>/call/\<close>, or the validation rejected it and it is now the
  placeholder string.
\<close>

theorem startup_changes_two_entries:
  assumes "startup_config en c = Inr c'"
  shows "map fst c' = map fst c
      \<and> (\<forall>k. k \<noteq> k_server \<and> k \<noteq> k_mcp_endpoint \<longrightarrow> map_of c' k = map_of c k)
      \<and> (\<exists>sv sv'. map_of c k_server = Some (VDict sv) \<and> map_of c' k_server = Some (VDict sv')
            \<and> (\<forall>k. k \<noteq> k_auth_key \<longrightarrow> map_of sv' k = map_of sv k))
      \<and> (map_of c' k_mcp_endpoint = map_of c k_mcp_endpoint
          \<or> (\<exists>ep. map_of c k_mcp_endpoint = Some (VStr ep) \<and> marker \<notin> set ep
                \<and> validate_mcp_endpoint en (VStr ep) = Inr True
                \<and> map_of c' k_mcp_endpoint =
                    Some (VStr (py_replace (ascii ''/mcp/'') (ascii ''/call/'') ep)))
          \<or> (\<exists>ep. map_of c k_mcp_endpoint = Some ep \<and> ep \<noteq> VNone
                \<and> contains_marker ep = Inr False
                \<and> validate_mcp_endpoint en ep = Inr False
                \<and> map_of c' k_mcp_endpoint = Some (VStr endpoint_placeholder)))"
proof -
  from assms obtain c1 where
    d: "derive_auth_key (uuid4 en) c = Inr c1"
    and r: "rewrite_mcp_endpoint (validate_mcp_endpoint en) c1 = Inr c'"
    by (auto simp: startup_config_def split: sum.splits)
  from derive_auth_key_result [OF d] obtain sv a where
    sv: "map_of c k_server = Some (VDict sv)"
    and c1: "c1 = AList.update k_server (VDict (AList.update k_auth_key a sv)) c"
    by blast
  have keys1: "map fst c1 = map fst c"
    unfolding c1 using sv by (rule keys_update_present)
  have other1: "map_of c1 k = map_of c k" if "k \<noteq> k_server" for k
    unfolding c1 using that by (simp add: update_conv')
  have server1: "map_of c1 k_server = Some (VDict (AList.update k_auth_key a sv))"
    unfolding c1 by (simp add: update_conv')
  have ep1: "map_of c1 k_mcp_endpoint = map_of c k_mcp_endpoint"
    using server_not_endpoint by (intro other1) simp
  have sub: "map_of (AList.update k_auth_key a sv) k = map_of sv k" if "k \<noteq> k_auth_key" for k
    using that by (simp add: update_conv')
  from rewrite_mcp_endpoint_result [OF r]
  consider (same) "c' = c1"
    | (valid) ep where "map_of c1 k_mcp_endpoint = Some (VStr ep)" "marker \<notin> set ep"
        "validate_mcp_endpoint en (VStr ep) = Inr True"
        "c' = AList.update k_mcp_endpoint
               (VStr (py_replace (ascii ''/mcp/'') (ascii ''/call/'') ep)) c1"
    | (invalid) ep where "map_of c1 k_mcp_endpoint = Some ep" "ep \<noteq> VNone"
        "contains_marker ep = Inr False" "validate_mcp_endpoint en ep = Inr False"
        "c' = AList.update k_mcp_endpoint (VStr endpoint_placeholder) c1"
    by blast
  then show ?thesis
  proof cases
    case same
    have "map_of c' k_mcp_endpoint = map_of c k_mcp_endpoint"
      using same ep1 by simp
    moreover have "map fst c' = map fst c"
      using same keys1 by simp
    moreover have "\<forall>k. k \<noteq> k_server \<and> k \<noteq> k_mcp_endpoint \<longrightarrow> map_of c' k = map_of c k"
      using same other1 by simp
    moreover have "map_of c' k_server = Some (VDict (AList.update k_auth_key a sv))"
      using same server1 by simp
    ultimately show ?thesis using sv sub by blast
  next
    case valid
    have k: "map fst c' = map fst c"
      unfolding valid(4) using valid(1) keys1 by (simp add: keys_update_present)
    have o: "\<forall>k. k \<noteq> k_server \<and> k \<noteq> k_mcp_endpoint \<longrightarrow> map_of c' k = map_of c k"
      unfolding valid(4) using other1 by (simp add: update_conv')
    have s: "map_of c' k_server = Some (VDict (AList.update k_auth_key a sv))"
      unfolding valid(4) using server1 server_not_endpoint by (simp add: update_conv')
    have e: "map_of c' k_mcp_endpoint =
        Some (VStr (py_replace (ascii ''/mcp/'') (ascii ''/call/'') ep))"
      unfolding valid(4) by (simp add: update_conv')
    have "map_of c k_mcp_endpoint = Some (VStr ep)"
      using valid(1) ep1 by simp
    with k o s e valid(2,3) sv sub show ?thesis by blast
  next
    case invalid
    have k: "map fst c' = map fst c"
      unfolding invalid(5) using invalid(1) keys1 by (simp add: keys_update_present)
    have o: "\<forall>k. k \<noteq> k_server \<and> k \<noteq> k_mcp_endpoint \<longrightarrow> map_of c' k = map_of c k"
      unfolding invalid(5) using other1 by (simp add: update_conv')
    have s: "map_of c' k_server = Some (VDict (AList.update k_auth_key a sv))"
      unfolding invalid(5) using server1 server_not_endpoint by (simp add: update_conv')
    have e: "map_of c' k_mcp_endpoint = Some (VStr endpoint_placeholder)"
      unfolding invalid(5) by (simp add: update_conv')
    have "map_of c k_mcp_endpoint = Some ep"
      using invalid(1) ep1 by simp
    with k o s e invalid(2,3,4) sv sub show ?thesis by blast
  qed
qed

theorem startup_changes_two_entries_witness:
  "startup_config
     \<lparr>uuid4 = 255, parse_int = (\<lambda>s. None), validate_mcp_endpoint = (\<lambda>v. Inr True)\<rparr>
     [(k_manager_api, VDict [(k_secret, VStr (ascii ''abc''))]),
      (k_server, VDict [(k_http_port, VInt 8003)]),
      (k_mcp_endpoint, VStr (ascii ''ws://h/mcp/?token=1''))]
   = Inr [(k_manager_api, VDict [(k_secret, VStr (ascii ''abc''))]),
          (k_server, VDict [(k_http_port, VInt 8003), (k_auth_key, VStr (ascii ''abc''))]),
          (k_mcp_endpoint, VStr (ascii ''ws://h/call/?token=1''))]
   \<and> map fst [(k_manager_api, VDict [(k_secret, VStr (ascii ''abc''))]),
          (k_server, VDict [(k_http_port, VInt 8003), (k_auth_key, VStr (ascii ''abc''))]),
          (k_mcp_endpoint, VStr (ascii ''ws://h/call/?token=1''))]
     = map fst [(k_manager_api, VDict [(k_secret, VStr (ascii ''abc''))]),
      (k_server, VDict [(k_http_port, VInt 8003)]),
      (k_mcp_endpoint, VStr (ascii ''ws://h/mcp/?token=1''))]"
proof -
  have a: "startup_config
     \<lparr>uuid4 = 255, parse_int = (\<lambda>s. None), validate_mcp_endpoint = (\<lambda>v. Inr True)\<rparr>
     [(k_manager_api, VDict [(k_secret, VStr (ascii ''abc''))]),
      (k_server, VDict [(k_http_port, VInt 8003)]),
      (k_mcp_endpoint, VStr (ascii ''ws://h/mcp/?token=1''))]
   = Inr [(k_manager_api, VDict [(k_secret, VStr (ascii ''abc''))]),
          (k_server, VDict [(k_http_port, VInt 8003), (k_auth_key, VStr (ascii ''abc''))]),
          (k_mcp_endpoint, VStr (ascii ''ws://h/call/?token=1''))]"
    by (simp add: config_defs key_defs marker_def)
  from startup_changes_two_entries [OF a] a show ?thesis
    by blast
qed

end
